theory Spec2Isabelle
  imports Main "HOL-Library.Word"
begin

unbundle bit_operations_syntax

section \<open>The LED matrix driver of XPanino (ledmatrix.cpp)\<close>

text \<open>
  The class \<open>LedMatrix\<close> keeps the wanted state of every LED (\<open>matrix\<close>), the frame
  that is shifted into the MIC5891/MIC5821 registers (\<open>hwMatrix\<close>), and for each blink
  speed a membership mask and a phase timer. Every member function is embedded as a
  function from the object's state to its return value and its new state.
\<close>

subsection \<open>Machine types and constants\<close>

type_synonym u8 = "8 word"
type_synonym u32 = "32 word"

text \<open>
  Modelled from the spec: the constants \<open>LED_ROWS\<close>, \<open>LED_COLS\<close>, \<open>NO_OF_SPEED_CLASSES\<close>,
  \<open>BLINK_NORMAL\<close> and \<open>BLINK_SLOW\<close> of the header ledmatrix.hpp, which is not among the
  sources. The reference hardware has 8 rows of 32 columns, and there are two speed
  classes, normal and slow, numbered in the order of the initialisers of
  \<open>BLINK_INTERVAL_BRIGHT\<close> and \<open>BLINK_INTERVAL_DARK\<close>.
\<close>

definition LED_ROWS :: nat where
  "LED_ROWS = 8"

definition LED_COLS :: nat where
  "LED_COLS = 32"

definition NO_OF_SPEED_CLASSES :: nat where
  "NO_OF_SPEED_CLASSES = 2"

definition BLINK_NORMAL :: nat where
  "BLINK_NORMAL = 0"

definition BLINK_SLOW :: nat where
  "BLINK_SLOW = 1"

text \<open>The constants of ledmatrix.cpp itself. Times are in milliseconds.\<close>

definition BLINK_VERSATZ :: u32 where
  "BLINK_VERSATZ = 447"

definition BLINK_INTERVAL_BRIGHT :: "u32 list" where
  "BLINK_INTERVAL_BRIGHT = [1000, 2000]"

definition BLINK_INTERVAL_DARK :: "u32 list" where
  "BLINK_INTERVAL_DARK = [1000, 6000]"

definition SEGMENT_CHARS :: nat where
  "SEGMENT_CHARS = 29"

text \<open>The segment patterns, bit 0 = segment a ... bit 6 = segment g.\<close>

definition segmentBits :: "u8 list" where
  "segmentBits =
    [0x3F, 0x06, 0x5B, 0x4F, 0x66, 0x6D, 0x7D, 0x07, 0x7F, 0x6F,
     0x00, 0x49, 0x36,
     0x77, 0x7C, 0x39, 0x5E, 0x79, 0x71, 0x36, 0x38, 0x5C, 0x73, 0x50, 0x3E, 0x1C,
     0x40, 0x63, 0x58]"

subsection \<open>The state of a \<open>LedMatrix\<close> object\<close>

text \<open>
  The member arrays have a fixed size; here they are lists, and \<open>wf\<close> says that every
  list has the length of its array. A row is a \<open>uint32_t\<close>: \<open>display\<close> shifts out 32 bits
  for each row. The counter \<open>millis\<close> of Arduino is an \<open>unsigned long\<close>, 32 bits wide,
  and the start times and intervals that are compared with it are kept in the same type;
  its arithmetic wraps around.
\<close>

record LedMatrix =
  hwMatrix :: "u32 list"
  matrix :: "u32 list"
  blinkStatus :: "u32 list list"
  isBlinkDarkPhase :: "bool list"
  blinkStartTime :: "u32 list"
  nextBlinkInterval :: "u32 list"

definition wf :: "LedMatrix \<Rightarrow> bool" where
  "wf s \<longleftrightarrow>
     length (hwMatrix s) = LED_ROWS \<and>
     length (matrix s) = LED_ROWS \<and>
     length (blinkStatus s) = NO_OF_SPEED_CLASSES \<and>
     list_all (\<lambda>bs. length bs = LED_ROWS) (blinkStatus s) \<and>
     length (isBlinkDarkPhase s) = NO_OF_SPEED_CLASSES \<and>
     length (blinkStartTime s) = NO_OF_SPEED_CLASSES \<and>
     length (nextBlinkInterval s) = NO_OF_SPEED_CLASSES"

text \<open>
  The constructor. \<open>millis\<close> is read once in each round of the loop over the speed
  classes: \<open>now speedClass\<close> is the value read in that round.
\<close>

definition LedMatrix_init :: "(nat \<Rightarrow> u32) \<Rightarrow> LedMatrix" where
  "LedMatrix_init now =
     \<lparr> hwMatrix = replicate LED_ROWS 0,
       matrix = replicate LED_ROWS 0,
       blinkStatus = replicate NO_OF_SPEED_CLASSES (replicate LED_ROWS 0),
       isBlinkDarkPhase = replicate NO_OF_SPEED_CLASSES True,
       blinkStartTime =
         map (\<lambda>speedClass. now speedClass + of_nat speedClass * BLINK_VERSATZ)
           [0..<NO_OF_SPEED_CLASSES],
       nextBlinkInterval =
         [BLINK_INTERVAL_BRIGHT ! BLINK_NORMAL, BLINK_INTERVAL_BRIGHT ! BLINK_SLOW] \<rparr>"

subsection \<open>The segment font\<close>

text \<open>
  Reading \<open>segmentBits\<close> at an index: \<open>None\<close> stands for a read behind the end of the
  table, which C++ leaves undefined.
\<close>

definition segmentBitsAt :: "nat \<Rightarrow> u8 option" where
  "segmentBitsAt i = (if i < SEGMENT_CHARS then Some (segmentBits ! i) else None)"

text \<open>
  \<open>get7SegBits\<close>. The glyph code \<open>CHAR_ERROR\<close> is declared in ledmatrix.hpp, so it is a
  parameter here.
\<close>

definition get7SegBits :: "nat \<Rightarrow> u8 \<Rightarrow> u8 option" where
  "get7SegBits CHAR_ERROR character =
     (if SEGMENT_CHARS \<le> unat character then
        (if 48 \<le> character \<and> character \<le> 57 then segmentBitsAt (unat character - 48)
         else segmentBitsAt CHAR_ERROR)
      else segmentBitsAt (unat character))"

subsection \<open>Validation\<close>

definition isValidRowCol :: "u8 \<Rightarrow> u8 \<Rightarrow> bool" where
  "isValidRowCol row col \<longleftrightarrow> unat row < LED_ROWS \<and> unat col < LED_COLS"

definition isValidBlinkSpeed :: "u8 \<Rightarrow> bool" where
  "isValidBlinkSpeed blinkSpeed \<longleftrightarrow> unat blinkSpeed < NO_OF_SPEED_CLASSES"

subsection \<open>Single LEDs\<close>

text \<open>The two updates of one row word that the member functions share.\<close>

definition orRow :: "nat \<Rightarrow> u32 \<Rightarrow> u32 list \<Rightarrow> u32 list" where
  "orRow row w m = m[row := m ! row OR w]"

definition andNotRow :: "nat \<Rightarrow> u32 \<Rightarrow> u32 list \<Rightarrow> u32 list" where
  "andNotRow row w m = m[row := m ! row AND NOT w]"

definition isLedOn :: "u8 \<Rightarrow> u8 \<Rightarrow> LedMatrix \<Rightarrow> bool" where
  "isLedOn row col s =
     (if isValidRowCol row col
      then matrix s ! unat row AND push_bit (unat col) 1 \<noteq> 0
      else False)"

definition ledOn :: "u8 \<Rightarrow> u8 \<Rightarrow> LedMatrix \<Rightarrow> int \<times> LedMatrix" where
  "ledOn row col s =
     (if isValidRowCol row col
      then (0, s\<lparr>matrix := orRow (unat row) (push_bit (unat col) 1) (matrix s)\<rparr>)
      else (- 1, s))"

definition ledOff :: "u8 \<Rightarrow> u8 \<Rightarrow> LedMatrix \<Rightarrow> int \<times> LedMatrix" where
  "ledOff row col s =
     (if isValidRowCol row col
      then (0, s\<lparr>matrix := andNotRow (unat row) (push_bit (unat col) 1) (matrix s)\<rparr>)
      else (- 1, s))"

definition ledToggle :: "u8 \<Rightarrow> u8 \<Rightarrow> LedMatrix \<Rightarrow> int \<times> LedMatrix" where
  "ledToggle row col s =
     (if LED_ROWS \<le> unat row \<or> LED_COLS \<le> unat col then (- 1, s)
      else if isLedOn row col s then (0, snd (ledOff row col s))
      else (0, snd (ledOn row col s)))"

subsection \<open>Blink membership\<close>

text \<open>
  The member functions that change a mask all run the same loop: they walk through the
  speed classes and leave the loop at the one that was asked for.
\<close>

fun forSpeedClass :: "u8 \<Rightarrow> (nat \<Rightarrow> LedMatrix \<Rightarrow> LedMatrix) \<Rightarrow> nat list \<Rightarrow> LedMatrix \<Rightarrow> LedMatrix" where
  "forSpeedClass blinkSpeed body [] s = s"
| "forSpeedClass blinkSpeed body (speedClass # rest) s =
     (if unat blinkSpeed = speedClass then body speedClass s
      else forSpeedClass blinkSpeed body rest s)"

definition orBlink :: "nat \<Rightarrow> u32 \<Rightarrow> nat \<Rightarrow> LedMatrix \<Rightarrow> LedMatrix" where
  "orBlink row w speedClass s =
     s\<lparr>blinkStatus := (blinkStatus s)[speedClass := orRow row w (blinkStatus s ! speedClass)]\<rparr>"

definition andNotBlink :: "nat \<Rightarrow> u32 \<Rightarrow> nat \<Rightarrow> LedMatrix \<Rightarrow> LedMatrix" where
  "andNotBlink row w speedClass s =
     s\<lparr>blinkStatus := (blinkStatus s)[speedClass := andNotRow row w (blinkStatus s ! speedClass)]\<rparr>"

definition ledBlinkOn :: "u8 \<Rightarrow> u8 \<Rightarrow> u8 \<Rightarrow> LedMatrix \<Rightarrow> int \<times> LedMatrix" where
  "ledBlinkOn row col blinkSpeed s =
     (if isValidRowCol row col \<and> isValidBlinkSpeed blinkSpeed
      then (0, forSpeedClass blinkSpeed (orBlink (unat row) (push_bit (unat col) 1))
                 [0..<NO_OF_SPEED_CLASSES] s)
      else (- 1, s))"

definition ledBlinkOff :: "u8 \<Rightarrow> u8 \<Rightarrow> u8 \<Rightarrow> LedMatrix \<Rightarrow> int \<times> LedMatrix" where
  "ledBlinkOff row col blinkSpeed s =
     (if isValidRowCol row col \<and> isValidBlinkSpeed blinkSpeed
      then (0, forSpeedClass blinkSpeed (andNotBlink (unat row) (push_bit (unat col) 1))
                 [0..<NO_OF_SPEED_CLASSES] s)
      else (- 1, s))"

text \<open>\<open>isLedBlinkOn\<close> returns 1, 0, or -1 for an invalid request; its loop has no break.\<close>

definition isLedBlinkOn :: "u8 \<Rightarrow> u8 \<Rightarrow> u8 \<Rightarrow> LedMatrix \<Rightarrow> int" where
  "isLedBlinkOn row col blinkSpeed s =
     (if isValidRowCol row col \<and> isValidBlinkSpeed blinkSpeed
      then fold (\<lambda>speedClass r.
                  if unat blinkSpeed = speedClass
                  then (if blinkStatus s ! speedClass ! unat row AND push_bit (unat col) 1 \<noteq> 0
                        then 1 else 0)
                  else r)
             [0..<NO_OF_SPEED_CLASSES] 0
      else - 1)"

subsection \<open>Seven-segment digits\<close>

text \<open>
  The argument \<open>col0 + 7\<close> is passed as a \<open>uint8_t\<close>, so the sum is taken modulo 256.
  The result is \<open>None\<close> only if the font lookup reads behind its table.
\<close>

definition set7SegValue :: "nat \<Rightarrow> u8 \<Rightarrow> u8 \<Rightarrow> u8 \<Rightarrow> bool \<Rightarrow> LedMatrix \<Rightarrow> (int \<times> LedMatrix) option" where
  "set7SegValue CHAR_ERROR row col0 newValue dpOn s =
     (if isValidRowCol row col0 \<and> isValidRowCol row (col0 + 7) then
        (let s1 = s\<lparr>matrix := andNotRow (unat row) (push_bit (unat col0) 0xFF) (matrix s)\<rparr>
         in case get7SegBits CHAR_ERROR newValue of
              None \<Rightarrow> None
            | Some segs \<Rightarrow>
                (let s2 = s1\<lparr>matrix := orRow (unat row) (push_bit (unat col0) (ucast segs)) (matrix s1)\<rparr>;
                     s3 = (if dpOn then snd (ledOn row (col0 + 7) s2)
                           else snd (ledOff row (col0 + 7) s2))
                 in Some (0, s3)))
      else Some (- 1, s))"

definition set7SegBlinkOn :: "u8 \<Rightarrow> u8 \<Rightarrow> bool \<Rightarrow> u8 \<Rightarrow> LedMatrix \<Rightarrow> int \<times> LedMatrix" where
  "set7SegBlinkOn row col0 dpBlink blinkSpeed s =
     (if isValidRowCol row col0 \<and> isValidRowCol row (col0 + 7) \<and> isValidBlinkSpeed blinkSpeed
      then (0, forSpeedClass blinkSpeed
                 (orBlink (unat row)
                    (if dpBlink then push_bit (unat col0) 0xFF else push_bit (unat col0) 0x7F))
                 [0..<NO_OF_SPEED_CLASSES] s)
      else (- 1, s))"

definition set7SegBlinkOff :: "u8 \<Rightarrow> u8 \<Rightarrow> bool \<Rightarrow> u8 \<Rightarrow> LedMatrix \<Rightarrow> int \<times> LedMatrix" where
  "set7SegBlinkOff row col0 dpBlink blinkSpeed s =
     (if isValidRowCol row col0 \<and> isValidRowCol row (col0 + 7) \<and> isValidBlinkSpeed blinkSpeed
      then (0, forSpeedClass blinkSpeed
                 (andNotBlink (unat row)
                    (if dpBlink then push_bit (unat col0) 0xFF else push_bit (unat col0) 0x7F))
                 [0..<NO_OF_SPEED_CLASSES] s)
      else (- 1, s))"

subsection \<open>The blink scheduler\<close>

text \<open>
  The two nested range-for loops at the start of \<open>doBlink\<close>: \<open>blinkOn\<close> is assigned for
  every word that is visited, and both loops are left at the first word that is not 0.
\<close>

fun scanWords :: "bool \<Rightarrow> u32 list \<Rightarrow> bool" where
  "scanWords blinkOn [] = blinkOn"
| "scanWords blinkOn (col # rest) = (if col \<noteq> 0 then True else scanWords False rest)"

fun scanClasses :: "bool \<Rightarrow> u32 list list \<Rightarrow> bool" where
  "scanClasses blinkOn [] = blinkOn"
| "scanClasses blinkOn (bs # rest) =
     (if scanWords blinkOn bs then True else scanClasses (scanWords blinkOn bs) rest)"

text \<open>
  The readings of \<open>millis\<close> during one call of \<open>doBlink\<close>: for each speed class one
  reading in the comparison and, if the phase flips, a second one for the new start time.
\<close>

record readings =
  atCheck :: "nat \<Rightarrow> u32"
  atRestart :: "nat \<Rightarrow> u32"

definition expired :: "readings \<Rightarrow> nat \<Rightarrow> LedMatrix \<Rightarrow> bool" where
  "expired ms speedClass s \<longleftrightarrow>
     nextBlinkInterval s ! speedClass < atCheck ms speedClass - blinkStartTime s ! speedClass"

definition flipPhase :: "readings \<Rightarrow> nat \<Rightarrow> LedMatrix \<Rightarrow> LedMatrix" where
  "flipPhase ms speedClass s =
     (if expired ms speedClass s
      then s\<lparr>nextBlinkInterval := (nextBlinkInterval s)
                [speedClass := (if isBlinkDarkPhase s ! speedClass
                                then BLINK_INTERVAL_BRIGHT ! speedClass
                                else BLINK_INTERVAL_DARK ! speedClass)],
              isBlinkDarkPhase := (isBlinkDarkPhase s)
                [speedClass := \<not> isBlinkDarkPhase s ! speedClass],
              blinkStartTime := (blinkStartTime s)[speedClass := atRestart ms speedClass]\<rparr>
      else s)"

definition darken :: "nat \<Rightarrow> nat \<Rightarrow> LedMatrix \<Rightarrow> LedMatrix" where
  "darken row speedClass s =
     (if isBlinkDarkPhase s ! speedClass
      then s\<lparr>hwMatrix := andNotRow row (blinkStatus s ! speedClass ! row) (hwMatrix s)\<rparr>
      else s)"

definition copyRow :: "bool \<Rightarrow> nat \<Rightarrow> LedMatrix \<Rightarrow> LedMatrix" where
  "copyRow blinkOn row s =
     (let s1 = s\<lparr>hwMatrix := (hwMatrix s)[row := matrix s ! row]\<rparr>
      in if blinkOn then fold (darken row) [0..<NO_OF_SPEED_CLASSES] s1 else s1)"

definition doBlink :: "readings \<Rightarrow> LedMatrix \<Rightarrow> LedMatrix" where
  "doBlink ms s =
     (let blinkOn = scanClasses False (blinkStatus s);
          s1 = (if blinkOn then fold (flipPhase ms) [0..<NO_OF_SPEED_CLASSES] s else s)
      in fold (copyRow blinkOn) [0..<LED_ROWS] s1)"

subsection \<open>The transmitter\<close>

text \<open>What \<open>display\<close> does to the outside: writes to the four lines, and waits.\<close>

datatype pin = CLOCK | DATA_IN | STRB | OE

datatype hwEvent = DigitalWrite pin bool | DelayMicroseconds nat

text \<open>The loop \<open>for (b = width; b != 0; --b)\<close> over the bits of a row word.\<close>

fun shiftColumns :: "nat \<Rightarrow> u32 \<Rightarrow> hwEvent list" where
  "shiftColumns 0 w = []"
| "shiftColumns (Suc b) w =
     [DigitalWrite DATA_IN (drop_bit b w AND 1 \<noteq> 0),
      DigitalWrite CLOCK True, DelayMicroseconds 1, DigitalWrite CLOCK False]
     @ shiftColumns b w"

fun shiftActiveRow :: "nat \<Rightarrow> u8 \<Rightarrow> hwEvent list" where
  "shiftActiveRow 0 activeRow = []"
| "shiftActiveRow (Suc b) activeRow =
     [DigitalWrite DATA_IN (drop_bit b activeRow AND 1 \<noteq> 0),
      DigitalWrite CLOCK True, DelayMicroseconds 1, DigitalWrite CLOCK False,
      DelayMicroseconds 1]
     @ shiftActiveRow b activeRow"

definition displayRow :: "LedMatrix \<Rightarrow> nat \<Rightarrow> hwEvent list" where
  "displayRow s row =
     [DigitalWrite STRB False]
     @ shiftColumns 32 (hwMatrix s ! row)
     @ shiftActiveRow 8 (push_bit row 1)
     @ [DigitalWrite STRB True]"

definition display :: "readings \<Rightarrow> LedMatrix \<Rightarrow> LedMatrix \<times> hwEvent list" where
  "display ms s =
     (let s1 = doBlink ms s
      in (s1, concat (map (displayRow s1) [0..<LED_ROWS])))"

subsection \<open>Auxiliary notions for the statements\<close>

text \<open>The word that one round of the copy loop of \<open>doBlink\<close> leaves in a row of the frame.\<close>

definition shownWord :: "bool \<Rightarrow> LedMatrix \<Rightarrow> nat \<Rightarrow> u32" where
  "shownWord blinkOn s row =
     (if blinkOn
      then fold (\<lambda>speedClass w.
                   if isBlinkDarkPhase s ! speedClass
                   then w AND NOT (blinkStatus s ! speedClass ! row) else w)
             [0..<NO_OF_SPEED_CLASSES] (matrix s ! row)
      else matrix s ! row)"

text \<open>A call during which the millisecond counter stands at \<open>t\<close>.\<close>

definition readingsAt :: "u32 \<Rightarrow> readings" where
  "readingsAt t = \<lparr> atCheck = (\<lambda>speedClass. t), atRestart = (\<lambda>speedClass. t) \<rparr>"

text \<open>An object constructed while the counter stands at \<open>t\<close>.\<close>

definition powerOn :: "u32 \<Rightarrow> LedMatrix" where
  "powerOn t = LedMatrix_init (\<lambda>speedClass. t)"

text \<open>
  A small scenario: the object is constructed at time 0, the LED at row 0, column 0 is
  switched on and enrolled in the normal speed class, and the display is refreshed for
  the first time at 5000 ms, which starts a bright phase of that class.
\<close>

definition oneBlinkingLed :: LedMatrix where
  "oneBlinkingLed = snd (ledBlinkOn 0 0 0 (snd (ledOn 0 0 (powerOn 0))))"

definition brightPhaseStarted :: LedMatrix where
  "brightPhaseStarted = doBlink (readingsAt 5000) oneBlinkingLed"

text \<open>
  A second scenario, with three LEDs of row 0 switched on: column 0 blinks in the normal
  class, column 1 in the slow class, column 2 in both. The first refresh, at 5000 ms,
  starts a bright phase of both classes.
\<close>

definition threeLedsOn :: LedMatrix where
  "threeLedsOn = snd (ledOn 0 2 (snd (ledOn 0 1 (snd (ledOn 0 0 (powerOn 0))))))"

definition threeBlinkingLeds :: LedMatrix where
  "threeBlinkingLeds =
     doBlink (readingsAt 5000)
       (snd (ledBlinkOn 0 2 1 (snd (ledBlinkOn 0 2 0
          (snd (ledBlinkOn 0 1 1 (snd (ledBlinkOn 0 0 0 threeLedsOn))))))))"

subsection \<open>The wire protocol in the words of the specification\<close>

text \<open>
  For each row: strobe low, the 32 column bits with the most significant bit first and
  one clock pulse for each bit, the one-hot byte that selects the row, sent the same
  way, strobe high.
\<close>

definition clockPulse :: "hwEvent list" where
  "clockPulse = [DigitalWrite CLOCK True, DigitalWrite CLOCK False]"

definition shiftOutMsbFirst :: "nat \<Rightarrow> (nat \<Rightarrow> bool) \<Rightarrow> hwEvent list" where
  "shiftOutMsbFirst n b = concat (map (\<lambda>i. DigitalWrite DATA_IN (b i) # clockPulse) (rev [0..<n]))"

definition rowFrame :: "u32 \<Rightarrow> nat \<Rightarrow> hwEvent list" where
  "rowFrame w row =
     [DigitalWrite STRB False]
     @ shiftOutMsbFirst 32 (bit w)
     @ shiftOutMsbFirst 8 (\<lambda>i. i = row)
     @ [DigitalWrite STRB True]"

fun isWrite :: "hwEvent \<Rightarrow> bool" where
  "isWrite (DigitalWrite p v) = True"
| "isWrite (DelayMicroseconds n) = False"

section \<open>Properties\<close>

subsection \<open>Bits of a row word\<close>

lemma bit_single: "bit (push_bit c (1::u32)) k \<longleftrightarrow> k = c \<and> c < 32"
  by (auto simp: bit_simps)

lemma and_single_iff: "(w::u32) AND push_bit c 1 \<noteq> 0 \<longleftrightarrow> bit w c \<and> c < 32"
proof
  assume "w AND push_bit c 1 \<noteq> 0"
  then obtain n where "bit (w AND push_bit c 1) n"
    using bit_eq_iff [of "w AND push_bit c 1" 0] by auto
  then show "bit w c \<and> c < 32"
    by (auto simp: bit_and_iff bit_single simp del: push_bit_of_1)
next
  assume "bit w c \<and> c < 32"
  then have "bit (w AND push_bit c 1) c"
    by (auto simp: bit_and_iff bit_single simp del: push_bit_of_1)
  then show "w AND push_bit c 1 \<noteq> 0"
    by auto
qed

lemma or_then_clear: "\<not> bit (w::u32) c \<Longrightarrow> (w OR push_bit c 1) AND NOT (push_bit c 1) = w"
  by (rule bit_eqI)
    (auto simp: bit_and_iff bit_or_iff bit_not_iff bit_single simp del: push_bit_of_1)

lemma clear_then_or:
  "c < 32 \<Longrightarrow> bit (w::u32) c \<Longrightarrow> (w AND NOT (push_bit c 1)) OR push_bit c 1 = w"
  by (rule bit_eqI)
    (auto simp: bit_and_iff bit_or_iff bit_not_iff bit_single simp del: push_bit_of_1)

lemma ff_mask: "(0xFF::u32) = mask 8"
  by (simp add: mask_eq_exp_minus_1)

lemma span_dp_on:
  assumes "c + 7 < 32" and "\<not> bit (segs::u8) 7"
  shows "(ucast (drop_bit c (((w AND NOT (push_bit c 0xFF)) OR push_bit c (ucast segs))
            OR push_bit (c + 7) (1::u32))) :: u8) = segs OR push_bit 7 1"
proof (rule bit_word_eqI)
  fix n assume "n < LENGTH(8)"
  then have n: "n < 8" by simp
  show "bit (ucast (drop_bit c (((w AND NOT (push_bit c 0xFF)) OR push_bit c (ucast segs))
            OR push_bit (c + 7) (1::u32))) :: u8) n = bit (segs OR push_bit 7 1) n"
    using assms n unfolding ff_mask
    by (auto simp add: bit_simps simp del: push_bit_of_1)
qed

lemma span_dp_off:
  assumes "c + 7 < 32" and "\<not> bit (segs::u8) 7"
  shows "(ucast (drop_bit c (((w AND NOT (push_bit c 0xFF)) OR push_bit c (ucast segs))
            AND NOT (push_bit (c + 7) (1::u32)))) :: u8) = segs"
proof (rule bit_word_eqI)
  fix n assume "n < LENGTH(8)"
  then have n: "n < 8" by simp
  show "bit (ucast (drop_bit c (((w AND NOT (push_bit c 0xFF)) OR push_bit c (ucast segs))
            AND NOT (push_bit (c + 7) (1::u32)))) :: u8) n = bit segs n"
    using assms n unfolding ff_mask
    by (cases "n = 7") (auto simp add: bit_simps simp del: push_bit_of_1)
qed

subsection \<open>Well-formed states and validation\<close>

lemma wf_init: "wf (LedMatrix_init now)"
  by (simp add: wf_def LedMatrix_init_def LED_ROWS_def NO_OF_SPEED_CLASSES_def numeral_2_eq_2)

lemma unat_plus_7: "unat (col0::u8) + 7 < 32 \<Longrightarrow> unat (col0 + 7) = unat col0 + 7"
  by (simp add: unat_word_ariths)

lemma span_valid_iff:
  "(isValidRowCol row col0 \<and> isValidRowCol row (col0 + 7)) \<longleftrightarrow>
     unat row < LED_ROWS \<and> unat col0 + 7 < LED_COLS"
proof (cases "unat col0 + 7 < 32")
  case True
  then show ?thesis by (auto simp: isValidRowCol_def LED_COLS_def unat_plus_7)
next
  case False
  have "unat col0 < 32 \<Longrightarrow> unat (col0 + 7) = unat col0 + 7"
    by (simp add: unat_word_ariths)
  with False show ?thesis by (auto simp: isValidRowCol_def LED_COLS_def)
qed

lemma isLedOn_iff:
  "isLedOn row col s \<longleftrightarrow> isValidRowCol row col \<and> bit (matrix s ! unat row) (unat col)"
  unfolding isLedOn_def and_single_iff by (auto simp: isValidRowCol_def LED_COLS_def)

lemma forSpeedClass_hit:
  "unat blinkSpeed < n \<Longrightarrow> forSpeedClass blinkSpeed body [0..<n] s = body (unat blinkSpeed) s"
proof (induction n)
  case 0
  then show ?case by simp
next
  case (Suc n)
  have app: "forSpeedClass blinkSpeed body (xs @ [n]) s =
               (if unat blinkSpeed \<in> set xs then forSpeedClass blinkSpeed body xs s
                else if unat blinkSpeed = n then body n s else s)" for xs
    by (induction xs) auto
  from Suc show ?case
    by (cases "unat blinkSpeed < n") (auto simp: app less_Suc_eq)
qed

subsection \<open>The segment font\<close>

lemma length_segmentBits: "length segmentBits = SEGMENT_CHARS"
  by (simp add: segmentBits_def SEGMENT_CHARS_def)

lemma segmentBits_seven_bits: "\<forall>p \<in> set segmentBits. p < 128 \<and> \<not> bit p 7"
  by (simp add: segmentBits_def)

lemma segmentBitsAt_Some:
  "i < SEGMENT_CHARS \<Longrightarrow> segmentBitsAt i = Some (segmentBits ! i)"
  by (simp add: segmentBitsAt_def)

lemma get7SegBits_cases:
  assumes "CHAR_ERROR < SEGMENT_CHARS"
  shows "get7SegBits CHAR_ERROR c =
           Some (segmentBits ! (if unat c < SEGMENT_CHARS then unat c
                                else if 48 \<le> unat c \<and> unat c \<le> 57 then unat c - 48
                                else CHAR_ERROR))"
proof -
  have le: "(48 \<le> c \<and> c \<le> 57) = (48 \<le> unat c \<and> unat c \<le> 57)"
    by (simp add: word_le_nat_alt)
  have "48 \<le> unat c \<and> unat c \<le> 57 \<Longrightarrow> unat c - 48 < SEGMENT_CHARS"
    unfolding SEGMENT_CHARS_def by arith
  with assms show ?thesis
    unfolding get7SegBits_def le by (simp add: segmentBitsAt_Some)
qed

lemma get7SegBits_Some:
  assumes "CHAR_ERROR < SEGMENT_CHARS"
  shows "\<exists>p. get7SegBits CHAR_ERROR c = Some p \<and> p \<in> set segmentBits"
proof -
  let ?i = "if unat c < SEGMENT_CHARS then unat c
            else if 48 \<le> unat c \<and> unat c \<le> 57 then unat c - 48 else CHAR_ERROR"
  have "?i < SEGMENT_CHARS"
    using assms unfolding SEGMENT_CHARS_def by (auto split: if_splits)
  then have "segmentBits ! ?i \<in> set segmentBits"
    by (simp only: length_segmentBits [symmetric] nth_mem)
  with get7SegBits_cases [OF assms, of c] show ?thesis
    by blast
qed

text \<open>
  C6: the font lookup always returns a pattern. A selector below \<open>SEGMENT_CHARS\<close> gives its
  own entry of the table, an ASCII digit (48 to 57) gives the entry of that digit, and
  every other selector gives the entry of \<open>CHAR_ERROR\<close>; the result is an entry of the
  table and fits into seven bits. \<open>CHAR_ERROR\<close> comes from the header and has to be one of
  the glyph codes of the table.
\<close>

theorem get7SegBits_total:
  assumes "CHAR_ERROR < SEGMENT_CHARS"
  shows "\<exists>p. get7SegBits CHAR_ERROR c = Some p \<and> p \<in> set segmentBits \<and> p < 128 \<and>
           (unat c < SEGMENT_CHARS \<longrightarrow> p = segmentBits ! unat c) \<and>
           (48 \<le> unat c \<and> unat c \<le> 57 \<longrightarrow> p = segmentBits ! (unat c - 48)) \<and>
           (SEGMENT_CHARS \<le> unat c \<and> \<not> (48 \<le> unat c \<and> unat c \<le> 57)
              \<longrightarrow> p = segmentBits ! CHAR_ERROR)"
proof -
  from get7SegBits_Some [OF assms, of c]
  obtain p where p: "get7SegBits CHAR_ERROR c = Some p" and mem: "p \<in> set segmentBits"
    by blast
  from mem have "p < 128"
    using segmentBits_seven_bits by blast
  with p mem get7SegBits_cases [OF assms, of c] show ?thesis
    by (auto simp: SEGMENT_CHARS_def)
qed

theorem get7SegBits_total_witness:
  "get7SegBits 11 7 = Some 0x07 \<and> get7SegBits 11 55 = Some 0x07 \<and>
   get7SegBits 11 200 = Some 0x49"
proof -
  have h: "(11::nat) < SEGMENT_CHARS"
    by (simp add: SEGMENT_CHARS_def)
  show ?thesis
    using get7SegBits_total [OF h, of 7] get7SegBits_total [OF h, of 55]
      get7SegBits_total [OF h, of 200]
    by (auto simp: SEGMENT_CHARS_def segmentBits_def)
qed

subsection \<open>Single LEDs\<close>

text \<open>
  C8: at every valid position, \<open>isLedOn\<close> is true after \<open>ledOn\<close> and false after
  \<open>ledOff\<close>, and two calls of \<open>ledToggle\<close> give back the state they started from.
\<close>

theorem led_set_clear_toggle:
  assumes "wf s" and "unat row < LED_ROWS" and "unat col < LED_COLS"
  shows "isLedOn row col (snd (ledOn row col s)) \<and>
         \<not> isLedOn row col (snd (ledOff row col s)) \<and>
         snd (ledToggle row col (snd (ledToggle row col s))) = s"
proof -
  have valid: "isValidRowCol row col"
    using assms(2,3) by (simp add: isValidRowCol_def)
  have len: "unat row < length (matrix s)"
    using assms(1,2) by (simp add: wf_def)
  have c: "unat col < 32"
    using assms(3) by (simp add: LED_COLS_def)
  have "isLedOn row col (snd (ledOn row col s))"
    unfolding isLedOn_iff using valid len c
    by (simp add: ledOn_def orRow_def bit_or_iff bit_single del: push_bit_of_1)
  moreover have "\<not> isLedOn row col (snd (ledOff row col s))"
    unfolding isLedOn_iff using valid len c
    by (simp add: ledOff_def andNotRow_def bit_and_iff bit_not_iff bit_single
        del: push_bit_of_1)
  moreover have "snd (ledToggle row col (snd (ledToggle row col s))) = s"
    unfolding ledToggle_def isLedOn_iff using valid len c assms(2,3)
    by (cases "bit (matrix s ! unat row) (unat col)")
      (simp_all add: ledOn_def ledOff_def orRow_def andNotRow_def bit_and_iff bit_or_iff
        bit_not_iff bit_single or_then_clear clear_then_or del: push_bit_of_1)
  ultimately show ?thesis by blast
qed

theorem led_set_clear_toggle_witness:
  "isLedOn 3 5 (snd (ledOn 3 5 (powerOn 0))) \<and>
   \<not> isLedOn 3 5 (snd (ledOff 3 5 (powerOn 0))) \<and>
   snd (ledToggle 3 5 (snd (ledToggle 3 5 (powerOn 0)))) = powerOn 0"
proof -
  have h1: "wf (powerOn 0)"
    by (simp add: powerOn_def wf_init)
  have h2: "unat (3::u8) < LED_ROWS"
    by (simp add: LED_ROWS_def)
  have h3: "unat (5::u8) < LED_COLS"
    by (simp add: LED_COLS_def)
  show ?thesis
    by (rule led_set_clear_toggle [OF h1 h2 h3])
qed

subsection \<open>Seven-segment digits\<close>

text \<open>
  C2: if the row is valid and the columns \<open>col0\<close> to \<open>col0 + 7\<close> are all in range, then
  \<open>set7SegValue\<close> succeeds, and afterwards the eight bits of the row that start at \<open>col0\<close>
  are the font pattern of the glyph in the low seven bits and the decimal-point flag in
  the highest bit, whatever the row held before.
\<close>

theorem set7SegValue_span:
  assumes "CHAR_ERROR < SEGMENT_CHARS" and "wf s"
    and "unat row < LED_ROWS" and "unat col0 + 7 < LED_COLS"
  shows "\<exists>segs s'. get7SegBits CHAR_ERROR glyph = Some segs \<and> segs < 128 \<and>
           set7SegValue CHAR_ERROR row col0 glyph dp s = Some (0, s') \<and>
           (ucast (drop_bit (unat col0) (matrix s' ! unat row)) :: u8)
              = segs OR push_bit 7 (of_bool dp)"
proof -
  from assms(1) obtain segs where segs: "get7SegBits CHAR_ERROR glyph = Some segs"
    and mem: "segs \<in> set segmentBits"
    using get7SegBits_Some by blast
  from mem have small: "segs < 128" and b7: "\<not> bit segs 7"
    using segmentBits_seven_bits by blast+
  have valid: "isValidRowCol row col0 \<and> isValidRowCol row (col0 + 7)"
    using assms(3,4) by (simp add: span_valid_iff)
  have c7: "unat (col0 + 7) = unat col0 + 7" and c32: "unat col0 + 7 < 32"
    using assms(4) by (simp_all add: unat_plus_7 LED_COLS_def)
  have len: "unat row < length (matrix s)"
    using assms(2,3) by (simp add: wf_def)
  show ?thesis
  proof (cases dp)
    case True
    with segs valid len small span_dp_on [OF c32 b7] show ?thesis
      by (simp add: set7SegValue_def ledOn_def orRow_def andNotRow_def c7
          del: push_bit_of_1)
  next
    case False
    with segs valid len small span_dp_off [OF c32 b7] show ?thesis
      by (simp add: set7SegValue_def ledOff_def orRow_def andNotRow_def c7
          del: push_bit_of_1)
  qed
qed

theorem set7SegValue_span_witness:
  "fst (the (set7SegValue 11 2 8 55 True (snd (ledOn 2 9 (powerOn 0))))) = 0 \<and>
   (ucast (drop_bit 8
      (matrix (snd (the (set7SegValue 11 2 8 55 True (snd (ledOn 2 9 (powerOn 0)))))) ! 2)) :: u8)
    = 0x87"
proof -
  have h1: "(11::nat) < SEGMENT_CHARS"
    by (simp add: SEGMENT_CHARS_def)
  have h2: "wf (snd (ledOn 2 9 (powerOn 0)))"
    using wf_init [of "\<lambda>speedClass. 0"]
    by (simp add: powerOn_def ledOn_def wf_def orRow_def)
  have h3: "unat (2::u8) < LED_ROWS"
    by (simp add: LED_ROWS_def)
  have h4: "unat (8::u8) + 7 < LED_COLS"
    by (simp add: LED_COLS_def)
  have g: "get7SegBits 11 55 = Some 0x07"
    by (simp add: get7SegBits_def segmentBitsAt_def SEGMENT_CHARS_def segmentBits_def)
  show ?thesis
    using set7SegValue_span [OF h1 h2 h3 h4, of 55 True] g
    by auto
qed

subsection \<open>Rejected requests\<close>

text \<open>
  C3: a request with a row, a column, a digit span or a speed class out of range is
  answered with -1 by \<open>ledOn\<close>, \<open>ledOff\<close>, \<open>ledToggle\<close>, \<open>set7SegValue\<close>, \<open>ledBlinkOn\<close>,
  \<open>ledBlinkOff\<close>, \<open>set7SegBlinkOn\<close> and \<open>set7SegBlinkOff\<close>, and the whole state of the
  object (both matrices, the masks, the timers) stays as it was.
\<close>

theorem out_of_range_rejected:
  "(LED_ROWS \<le> unat row \<or> LED_COLS \<le> unat col \<longrightarrow>
      ledOn row col s = (- 1, s) \<and> ledOff row col s = (- 1, s) \<and>
      ledToggle row col s = (- 1, s)) \<and>
   (LED_ROWS \<le> unat row \<or> LED_COLS \<le> unat col + 7 \<longrightarrow>
      set7SegValue CHAR_ERROR row col glyph dp s = Some (- 1, s)) \<and>
   (LED_ROWS \<le> unat row \<or> LED_COLS \<le> unat col \<or> NO_OF_SPEED_CLASSES \<le> unat blinkSpeed \<longrightarrow>
      ledBlinkOn row col blinkSpeed s = (- 1, s) \<and>
      ledBlinkOff row col blinkSpeed s = (- 1, s)) \<and>
   (LED_ROWS \<le> unat row \<or> LED_COLS \<le> unat col + 7 \<or> NO_OF_SPEED_CLASSES \<le> unat blinkSpeed \<longrightarrow>
      set7SegBlinkOn row col dp blinkSpeed s = (- 1, s) \<and>
      set7SegBlinkOff row col dp blinkSpeed s = (- 1, s))"
proof -
  have single: "LED_ROWS \<le> unat row \<or> LED_COLS \<le> unat col \<Longrightarrow> \<not> isValidRowCol row col"
    by (auto simp: isValidRowCol_def)
  have span: "LED_ROWS \<le> unat row \<or> LED_COLS \<le> unat col + 7
                \<Longrightarrow> \<not> (isValidRowCol row col \<and> isValidRowCol row (col + 7))"
    unfolding span_valid_iff by auto
  have speed: "NO_OF_SPEED_CLASSES \<le> unat blinkSpeed \<Longrightarrow> \<not> isValidBlinkSpeed blinkSpeed"
    by (simp add: isValidBlinkSpeed_def)
  show ?thesis
    using single span speed
    by (auto simp: ledOn_def ledOff_def ledToggle_def set7SegValue_def ledBlinkOn_def
        ledBlinkOff_def set7SegBlinkOn_def set7SegBlinkOff_def isValidRowCol_def)
qed

theorem out_of_range_rejected_witness:
  "ledOn 8 3 oneBlinkingLed = (- 1, oneBlinkingLed) \<and>
   ledOff 8 3 oneBlinkingLed = (- 1, oneBlinkingLed) \<and>
   ledToggle 8 3 oneBlinkingLed = (- 1, oneBlinkingLed) \<and>
   set7SegValue 11 0 25 7 True oneBlinkingLed = Some (- 1, oneBlinkingLed) \<and>
   ledBlinkOn 0 0 2 oneBlinkingLed = (- 1, oneBlinkingLed) \<and>
   ledBlinkOff 0 0 2 oneBlinkingLed = (- 1, oneBlinkingLed) \<and>
   set7SegBlinkOn 0 25 True 0 oneBlinkingLed = (- 1, oneBlinkingLed) \<and>
   set7SegBlinkOff 0 25 True 0 oneBlinkingLed = (- 1, oneBlinkingLed)"
  using out_of_range_rejected [of 8 3 oneBlinkingLed 11 7 True 0]
    out_of_range_rejected [of 0 25 oneBlinkingLed 11 7 True 0]
    out_of_range_rejected [of 0 0 oneBlinkingLed 11 7 True 2]
  by (simp add: LED_ROWS_def LED_COLS_def NO_OF_SPEED_CLASSES_def)

subsection \<open>The blink scheduler\<close>

lemma scanWords_iff: "scanWords b ws \<longleftrightarrow> (\<exists>w \<in> set ws. w \<noteq> 0) \<or> (ws = [] \<and> b)"
  by (induction ws arbitrary: b) auto

lemma scanClasses_iff:
  "scanClasses False bss \<longleftrightarrow> (\<exists>bs \<in> set bss. \<exists>w \<in> set bs. w \<noteq> 0)"
  by (induction bss) (auto simp: scanWords_iff)

lemma fold_frame:
  assumes "\<And>x s. P (f x s) = P s"
  shows "P (fold f xs s) = P s"
  using assms by (induction xs arbitrary: s) simp_all

lemma classes_upt: "[0..<NO_OF_SPEED_CLASSES] = [0, 1]"
  by (simp add: NO_OF_SPEED_CLASSES_def upt_rec)

lemma copyRow_eq:
  assumes "row < length (hwMatrix s)"
  shows "copyRow blinkOn row s = s\<lparr>hwMatrix := (hwMatrix s)[row := shownWord blinkOn s row]\<rparr>"
  using assms
  by (simp add: copyRow_def shownWord_def classes_upt darken_def andNotRow_def Let_def)

lemma shownWord_hwMatrix [simp]:
  "shownWord b (s\<lparr>hwMatrix := h\<rparr>) row = shownWord b s row"
  by (simp add: shownWord_def cong: if_cong)

lemma update_at_boundary:
  assumes "length xs = n" and "n < length h"
  shows "(xs @ drop n h)[n := v] = (xs @ [v]) @ drop (Suc n) h"
proof -
  have d: "drop n h = h ! n # drop (Suc n) h"
    using assms(2) by (simp add: Cons_nth_drop_Suc)
  have "(xs @ drop n h)[n := v] = xs @ (drop n h)[0 := v]"
    using assms(1) by (simp add: list_update_append)
  also have "(drop n h)[0 := v] = v # drop (Suc n) h"
    by (subst d) simp
  finally show ?thesis by simp
qed

lemma fold_copyRow:
  assumes "n \<le> length (hwMatrix s)"
  shows "fold (copyRow b) [0..<n] s =
           s\<lparr>hwMatrix := map (shownWord b s) [0..<n] @ drop n (hwMatrix s)\<rparr>"
  using assms
proof (induction n)
  case 0
  then show ?case by simp
next
  case (Suc n)
  then have n: "n < length (hwMatrix s)" by simp
  let ?s = "s\<lparr>hwMatrix := map (shownWord b s) [0..<n] @ drop n (hwMatrix s)\<rparr>"
  have "fold (copyRow b) [0..<Suc n] s = copyRow b n ?s"
    using Suc by simp
  also have "\<dots> = ?s\<lparr>hwMatrix := (hwMatrix ?s)[n := shownWord b ?s n]\<rparr>"
    using n by (intro copyRow_eq) simp
  also have "\<dots> = s\<lparr>hwMatrix := map (shownWord b s) [0..<Suc n] @ drop (Suc n) (hwMatrix s)\<rparr>"
    using n by (simp add: update_at_boundary)
  finally show ?case .
qed

lemma doBlink_eq:
  assumes "length (hwMatrix s) = LED_ROWS"
  shows "doBlink ms s =
           (let blinkOn = scanClasses False (blinkStatus s);
                s1 = (if blinkOn then fold (flipPhase ms) [0..<NO_OF_SPEED_CLASSES] s else s)
            in s1\<lparr>hwMatrix := map (shownWord blinkOn s1) [0..<LED_ROWS]\<rparr>)"
proof -
  have "hwMatrix (fold (flipPhase ms) xs s) = hwMatrix s" for xs
    by (rule fold_frame) (simp add: flipPhase_def)
  with assms show ?thesis
    by (simp add: doBlink_def Let_def fold_copyRow)
qed

lemma flipPhase_frame:
  "matrix (flipPhase ms sc s) = matrix s"
  "blinkStatus (flipPhase ms sc s) = blinkStatus s"
  "hwMatrix (flipPhase ms sc s) = hwMatrix s"
  by (simp_all add: flipPhase_def)

lemma copyRow_frame:
  "matrix (copyRow b row s) = matrix s"
  "blinkStatus (copyRow b row s) = blinkStatus s"
  "isBlinkDarkPhase (copyRow b row s) = isBlinkDarkPhase s"
  "blinkStartTime (copyRow b row s) = blinkStartTime s"
  "nextBlinkInterval (copyRow b row s) = nextBlinkInterval s"
  by (simp_all add: copyRow_def classes_upt darken_def Let_def)

lemma doBlink_matrix: "matrix (doBlink ms s) = matrix s"
proof -
  have 1: "matrix (fold (copyRow b) xs t) = matrix t" for b xs t
    by (rule fold_frame) (rule copyRow_frame)
  have 2: "matrix (fold (flipPhase ms) xs t) = matrix t" for xs t
    by (rule fold_frame) (rule flipPhase_frame)
  show ?thesis by (simp add: doBlink_def Let_def 1 2)
qed

lemma doBlink_blinkStatus: "blinkStatus (doBlink ms s) = blinkStatus s"
proof -
  have 1: "blinkStatus (fold (copyRow b) xs t) = blinkStatus t" for b xs t
    by (rule fold_frame) (rule copyRow_frame)
  have 2: "blinkStatus (fold (flipPhase ms) xs t) = blinkStatus t" for xs t
    by (rule fold_frame) (rule flipPhase_frame)
  show ?thesis by (simp add: doBlink_def Let_def 1 2)
qed

lemma flipPhase_hwMatrix_update:
  "flipPhase ms sc (s\<lparr>hwMatrix := h\<rparr>) = (flipPhase ms sc s)\<lparr>hwMatrix := h\<rparr>"
  by (simp add: flipPhase_def expired_def)

lemma fold_flipPhase_hwMatrix_update:
  "fold (flipPhase ms) xs (s\<lparr>hwMatrix := h\<rparr>) = (fold (flipPhase ms) xs s)\<lparr>hwMatrix := h\<rparr>"
  by (induction xs arbitrary: s) (simp_all add: flipPhase_hwMatrix_update)

lemma doBlink_from_scratch:
  assumes "length h = LED_ROWS" and "length (hwMatrix s) = LED_ROWS"
  shows "doBlink ms (s\<lparr>hwMatrix := h\<rparr>) = doBlink ms s"
  using assms
  by (simp add: doBlink_eq Let_def fold_flipPhase_hwMatrix_update cong: map_cong)

lemma oneBlinkingLed_eq:
  "oneBlinkingLed =
     \<lparr> hwMatrix = [0, 0, 0, 0, 0, 0, 0, 0],
       matrix = [1, 0, 0, 0, 0, 0, 0, 0],
       blinkStatus = [[1, 0, 0, 0, 0, 0, 0, 0], [0, 0, 0, 0, 0, 0, 0, 0]],
       isBlinkDarkPhase = [True, True],
       blinkStartTime = [0, 447],
       nextBlinkInterval = [1000, 2000] \<rparr>"
  by code_simp

text \<open>
  C9: \<open>doBlink\<close>, and \<open>display\<close> with it, leaves \<open>matrix\<close> and every mask in \<open>blinkStatus\<close> as
  they were, and the frame it computes does not depend on what \<open>hwMatrix\<close> held before.
\<close>

theorem doBlink_frame:
  "matrix (doBlink ms s) = matrix s \<and>
   blinkStatus (doBlink ms s) = blinkStatus s \<and>
   matrix (fst (display ms s)) = matrix s \<and>
   blinkStatus (fst (display ms s)) = blinkStatus s \<and>
   (length h = LED_ROWS \<and> length (hwMatrix s) = LED_ROWS \<longrightarrow>
      doBlink ms (s\<lparr>hwMatrix := h\<rparr>) = doBlink ms s \<and>
      display ms (s\<lparr>hwMatrix := h\<rparr>) = display ms s)"
  by (simp add: doBlink_matrix doBlink_blinkStatus doBlink_from_scratch display_def Let_def)

theorem doBlink_frame_witness:
  "matrix (doBlink (readingsAt 5000) oneBlinkingLed) = matrix oneBlinkingLed \<and>
   blinkStatus (doBlink (readingsAt 5000) oneBlinkingLed) = blinkStatus oneBlinkingLed \<and>
   doBlink (readingsAt 5000) (oneBlinkingLed\<lparr>hwMatrix := replicate 8 0xFFFFFFFF\<rparr>)
     = doBlink (readingsAt 5000) oneBlinkingLed \<and>
   display (readingsAt 5000) (oneBlinkingLed\<lparr>hwMatrix := replicate 8 0xFFFFFFFF\<rparr>)
     = display (readingsAt 5000) oneBlinkingLed"
proof -
  have h: "length (replicate 8 (0xFFFFFFFF::u32)) = LED_ROWS \<and>
           length (hwMatrix oneBlinkingLed) = LED_ROWS"
    by (simp add: oneBlinkingLed_eq LED_ROWS_def)
  show ?thesis
    using h doBlink_frame [of "readingsAt 5000" oneBlinkingLed "replicate 8 0xFFFFFFFF"]
    by blast
qed

text \<open>
  C4: if every word of every mask in \<open>blinkStatus\<close> is 0, the frame that \<open>doBlink\<close> computes
  is \<open>matrix\<close> itself, whatever the counter reads and whatever the phase flags and timers
  hold.
\<close>

theorem no_blink_passthrough:
  assumes "wf s" and "\<forall>bs \<in> set (blinkStatus s). \<forall>w \<in> set bs. w = 0"
  shows "hwMatrix (doBlink ms s) = matrix s \<and> hwMatrix (fst (display ms s)) = matrix s"
proof -
  have off: "\<not> scanClasses False (blinkStatus s)"
    using assms(2) by (simp add: scanClasses_iff)
  have len: "length (hwMatrix s) = LED_ROWS" "length (matrix s) = LED_ROWS"
    using assms(1) by (simp_all add: wf_def)
  have "hwMatrix (doBlink ms s) = map (\<lambda>row. matrix s ! row) [0..<length (matrix s)]"
    using off len by (simp add: doBlink_eq Let_def shownWord_def)
  also have "\<dots> = matrix s"
    by (rule map_nth)
  finally show ?thesis
    by (simp add: display_def Let_def)
qed

theorem no_blink_passthrough_witness:
  "hwMatrix (doBlink (readingsAt 123456) (snd (ledOn 3 5 (powerOn 0))))
     = matrix (snd (ledOn 3 5 (powerOn 0))) \<and>
   matrix (snd (ledOn 3 5 (powerOn 0))) = [0, 0, 0, 32, 0, 0, 0, 0]"
proof -
  have h1: "wf (snd (ledOn 3 5 (powerOn 0)))"
    using wf_init [of "\<lambda>speedClass. 0"]
    by (simp add: powerOn_def ledOn_def wf_def orRow_def)
  have h2: "\<forall>bs \<in> set (blinkStatus (snd (ledOn 3 5 (powerOn 0)))). \<forall>w \<in> set bs. w = 0"
    by (simp add: powerOn_def ledOn_def LedMatrix_init_def)
  have m: "matrix (snd (ledOn 3 5 (powerOn 0))) = [0, 0, 0, 32, 0, 0, 0, 0]"
    by code_simp
  show ?thesis
    using no_blink_passthrough [OF h1 h2, of "readingsAt 123456"] m
    by simp
qed

subsection \<open>Blink membership\<close>

lemma blink_update_frame:
  assumes "s' = s \<or> s' = orBlink row w sc s \<or> s' = andNotBlink row w sc s"
  shows "matrix s' = matrix s \<and> hwMatrix s' = hwMatrix s \<and>
         isBlinkDarkPhase s' = isBlinkDarkPhase s \<and>
         blinkStartTime s' = blinkStartTime s \<and>
         nextBlinkInterval s' = nextBlinkInterval s \<and>
         length (blinkStatus s') = length (blinkStatus s) \<and>
         (\<forall>other. other \<noteq> sc \<longrightarrow> blinkStatus s' ! other = blinkStatus s ! other)"
  using assms by (auto simp: orBlink_def andNotBlink_def)

lemma blink_ops_shape:
  "snd (ledBlinkOn row col blinkSpeed s) = s \<or>
   snd (ledBlinkOn row col blinkSpeed s)
     = orBlink (unat row) (push_bit (unat col) 1) (unat blinkSpeed) s"
  "snd (ledBlinkOff row col blinkSpeed s) = s \<or>
   snd (ledBlinkOff row col blinkSpeed s)
     = andNotBlink (unat row) (push_bit (unat col) 1) (unat blinkSpeed) s"
  "snd (set7SegBlinkOn row col dp blinkSpeed s) = s \<or>
   snd (set7SegBlinkOn row col dp blinkSpeed s)
     = orBlink (unat row) (if dp then push_bit (unat col) 0xFF else push_bit (unat col) 0x7F)
         (unat blinkSpeed) s"
  "snd (set7SegBlinkOff row col dp blinkSpeed s) = s \<or>
   snd (set7SegBlinkOff row col dp blinkSpeed s)
     = andNotBlink (unat row) (if dp then push_bit (unat col) 0xFF else push_bit (unat col) 0x7F)
         (unat blinkSpeed) s"
  by (simp_all add: ledBlinkOn_def ledBlinkOff_def set7SegBlinkOn_def set7SegBlinkOff_def
      isValidBlinkSpeed_def forSpeedClass_hit del: push_bit_of_1)

text \<open>
  C10: \<open>ledBlinkOn\<close>, \<open>ledBlinkOff\<close>, \<open>set7SegBlinkOn\<close> and \<open>set7SegBlinkOff\<close> change nothing
  but the mask of the speed class they are called with: both matrices, the phase flags,
  the start times, the intervals and the masks of every other class stay as they were.
\<close>

theorem blink_membership_frame:
  assumes "f \<in> {ledBlinkOn row col blinkSpeed, ledBlinkOff row col blinkSpeed,
                set7SegBlinkOn row col dp blinkSpeed, set7SegBlinkOff row col dp blinkSpeed}"
  shows "matrix (snd (f s)) = matrix s \<and> hwMatrix (snd (f s)) = hwMatrix s \<and>
         isBlinkDarkPhase (snd (f s)) = isBlinkDarkPhase s \<and>
         blinkStartTime (snd (f s)) = blinkStartTime s \<and>
         nextBlinkInterval (snd (f s)) = nextBlinkInterval s \<and>
         length (blinkStatus (snd (f s))) = length (blinkStatus s) \<and>
         (\<forall>other. other \<noteq> unat blinkSpeed \<longrightarrow>
            blinkStatus (snd (f s)) ! other = blinkStatus s ! other)"
proof -
  from assms blink_ops_shape obtain w where
    "snd (f s) = s \<or> snd (f s) = orBlink (unat row) w (unat blinkSpeed) s
       \<or> snd (f s) = andNotBlink (unat row) w (unat blinkSpeed) s"
    by (elim insertE emptyE) blast+
  then show ?thesis
    by (rule blink_update_frame)
qed

theorem blink_membership_frame_witness:
  "isBlinkDarkPhase (snd (ledBlinkOn 2 3 1 brightPhaseStarted))
     = isBlinkDarkPhase brightPhaseStarted \<and>
   blinkStartTime (snd (ledBlinkOn 2 3 1 brightPhaseStarted))
     = blinkStartTime brightPhaseStarted \<and>
   nextBlinkInterval (snd (ledBlinkOn 2 3 1 brightPhaseStarted))
     = nextBlinkInterval brightPhaseStarted \<and>
   matrix (snd (ledBlinkOn 2 3 1 brightPhaseStarted)) = matrix brightPhaseStarted \<and>
   blinkStatus (snd (ledBlinkOn 2 3 1 brightPhaseStarted)) ! 0
     = blinkStatus brightPhaseStarted ! 0 \<and>
   blinkStatus (snd (ledBlinkOn 2 3 1 brightPhaseStarted)) ! 1
     = [0, 0, 8, 0, 0, 0, 0, 0]"
proof -
  have h: "ledBlinkOn 2 3 1 \<in> {ledBlinkOn 2 3 1, ledBlinkOff 2 3 1,
             set7SegBlinkOn 2 3 True 1, set7SegBlinkOff 2 3 True 1}"
    by simp
  have m: "blinkStatus (snd (ledBlinkOn 2 3 1 brightPhaseStarted)) ! 1
             = [0, 0, 8, 0, 0, 0, 0, 0]"
    unfolding brightPhaseStarted_def by code_simp
  show ?thesis
    using blink_membership_frame [OF h, of brightPhaseStarted] m
    by simp
qed

subsection \<open>The transmitter\<close>

lemma lsb_iff_bit: "(drop_bit b (w::'a::len word) AND 1 \<noteq> 0) \<longleftrightarrow> bit w b"
  by (simp add: bit_iff_odd_drop_bit and_one_eq mod_2_eq_odd)

lemma shiftOut_Suc:
  "shiftOutMsbFirst (Suc n) b = DigitalWrite DATA_IN (b n) # clockPulse @ shiftOutMsbFirst n b"
  by (simp add: shiftOutMsbFirst_def)

lemma writes_shiftColumns:
  "filter isWrite (shiftColumns n w) = shiftOutMsbFirst n (bit w)"
proof (induction n)
  case 0
  show ?case by (simp add: shiftOutMsbFirst_def)
next
  case (Suc n)
  then show ?case
    by (simp add: shiftOut_Suc clockPulse_def lsb_iff_bit)
qed

lemma writes_shiftActiveRow:
  "filter isWrite (shiftActiveRow n a) = shiftOutMsbFirst n (bit a)"
proof (induction n)
  case 0
  show ?case by (simp add: shiftOutMsbFirst_def)
next
  case (Suc n)
  then show ?case
    by (simp add: shiftOut_Suc clockPulse_def lsb_iff_bit)
qed

lemma shiftOut_cong:
  assumes "\<And>i. i < n \<Longrightarrow> b i = c i"
  shows "shiftOutMsbFirst n b = shiftOutMsbFirst n c"
proof -
  have "map (\<lambda>i. DigitalWrite DATA_IN (b i) # clockPulse) (rev [0..<n]) =
        map (\<lambda>i. DigitalWrite DATA_IN (c i) # clockPulse) (rev [0..<n])"
    by (rule map_cong) (use assms in auto)
  then show ?thesis
    unfolding shiftOutMsbFirst_def by (rule arg_cong)
qed

lemma one_hot: "bit (push_bit row (1::u8)) i \<longleftrightarrow> i = row \<and> row < 8"
  by (auto simp: bit_simps)

lemma writes_displayRow:
  assumes "row < LED_ROWS"
  shows "filter isWrite (displayRow s row) = rowFrame (hwMatrix s ! row) row"
proof -
  have "shiftOutMsbFirst 8 (bit (push_bit row (1::u8))) = shiftOutMsbFirst 8 (\<lambda>i. i = row)"
    using assms by (intro shiftOut_cong) (simp add: one_hot LED_ROWS_def del: push_bit_of_1)
  then show ?thesis
    by (simp add: displayRow_def rowFrame_def writes_shiftColumns writes_shiftActiveRow)
qed

text \<open>
  C7: the writes of one call of \<open>display\<close> are, for the rows 0 to 7 in this order, the
  frame of the row: strobe low, the 32 bits of the row's word of the frame that \<open>doBlink\<close>
  has just computed, highest bit first, each followed by clock high and clock low, then
  the 8 bits of the byte in which only the bit of the row is set, sent the same way, then
  strobe high.
\<close>

theorem display_wire_protocol:
  "fst (display ms s) = doBlink ms s \<and>
   filter isWrite (snd (display ms s)) =
     concat (map (\<lambda>row. rowFrame (hwMatrix (doBlink ms s) ! row) row) [0..<LED_ROWS])"
proof -
  have rows: "map (\<lambda>row. filter isWrite (displayRow t row)) [0..<LED_ROWS] =
          map (\<lambda>row. rowFrame (hwMatrix t ! row) row) [0..<LED_ROWS]" for t
    by (rule map_cong) (simp_all add: writes_displayRow)
  have "filter isWrite (concat (map (displayRow t) [0..<LED_ROWS])) =
          concat (map (\<lambda>row. filter isWrite (displayRow t row)) [0..<LED_ROWS])" for t
    by (simp add: filter_concat comp_def)
  then have "filter isWrite (concat (map (displayRow t) [0..<LED_ROWS])) =
          concat (map (\<lambda>row. rowFrame (hwMatrix t ! row) row) [0..<LED_ROWS])" for t
    by (simp only: rows)
  then show ?thesis
    by (simp add: display_def Let_def)
qed

subsection \<open>Phases and the frame\<close>

lemma wf_lengths:
  assumes "wf s"
  shows "length (hwMatrix s) = 8" "length (matrix s) = 8" "length (blinkStatus s) = 2"
    "length (isBlinkDarkPhase s) = 2" "length (blinkStartTime s) = 2"
    "length (nextBlinkInterval s) = 2"
    "sc < 2 \<Longrightarrow> length (blinkStatus s ! sc) = 8"
  using assms
  by (simp_all add: wf_def LED_ROWS_def NO_OF_SPEED_CLASSES_def list_all_length)

lemma fold_flipPhase_class:
  assumes "wf s" and "sc < 2"
  shows "isBlinkDarkPhase (fold (flipPhase ms) [0..<NO_OF_SPEED_CLASSES] s) ! sc
           = (isBlinkDarkPhase s ! sc \<noteq> expired ms sc s)"
    and "blinkStartTime (fold (flipPhase ms) [0..<NO_OF_SPEED_CLASSES] s) ! sc
           = (if expired ms sc s then atRestart ms sc else blinkStartTime s ! sc)"
    and "nextBlinkInterval (fold (flipPhase ms) [0..<NO_OF_SPEED_CLASSES] s) ! sc
           = (if expired ms sc s
              then (if isBlinkDarkPhase s ! sc then BLINK_INTERVAL_BRIGHT ! sc
                    else BLINK_INTERVAL_DARK ! sc)
              else nextBlinkInterval s ! sc)"
proof -
  from assms(2) consider "sc = 0" | "sc = 1" by linarith
  note c = this
  note l = wf_lengths [OF assms(1)]
  show "isBlinkDarkPhase (fold (flipPhase ms) [0..<NO_OF_SPEED_CLASSES] s) ! sc
           = (isBlinkDarkPhase s ! sc \<noteq> expired ms sc s)"
    using c l by cases (auto simp: classes_upt flipPhase_def expired_def)
  show "blinkStartTime (fold (flipPhase ms) [0..<NO_OF_SPEED_CLASSES] s) ! sc
           = (if expired ms sc s then atRestart ms sc else blinkStartTime s ! sc)"
    using c l by cases (auto simp: classes_upt flipPhase_def expired_def)
  show "nextBlinkInterval (fold (flipPhase ms) [0..<NO_OF_SPEED_CLASSES] s) ! sc
           = (if expired ms sc s
              then (if isBlinkDarkPhase s ! sc then BLINK_INTERVAL_BRIGHT ! sc
                    else BLINK_INTERVAL_DARK ! sc)
              else nextBlinkInterval s ! sc)"
    using c l by cases (auto simp: classes_upt flipPhase_def expired_def)
qed

lemma flipPhase_wf: "wf s \<Longrightarrow> wf (flipPhase ms sc s)"
  by (simp add: wf_def flipPhase_def)

lemma fold_flipPhase_wf: "wf s \<Longrightarrow> wf (fold (flipPhase ms) xs s)"
  by (induction xs arbitrary: s) (simp_all add: flipPhase_wf)

lemma fold_flipPhase_frame:
  "matrix (fold (flipPhase ms) xs s) = matrix s"
  "blinkStatus (fold (flipPhase ms) xs s) = blinkStatus s"
  "hwMatrix (fold (flipPhase ms) xs s) = hwMatrix s"
  by (rule fold_frame, rule flipPhase_frame)+

lemma doBlink_wf:
  assumes "wf s"
  shows "wf (doBlink ms s)"
proof -
  have "length (hwMatrix s) = LED_ROWS"
    using assms by (simp add: wf_def)
  then show ?thesis
    using assms fold_flipPhase_wf [OF assms, of ms "[0..<NO_OF_SPEED_CLASSES]"]
    by (simp add: doBlink_eq Let_def wf_def)
qed

lemma member_blinkOn:
  assumes "wf s" and "sc < 2" and "row < 8" and "bit (blinkStatus s ! sc ! row) col"
  shows "scanClasses False (blinkStatus s)"
proof -
  note l = wf_lengths [OF assms(1)]
  have "blinkStatus s ! sc \<in> set (blinkStatus s)"
    using l assms(2) by simp
  moreover have "blinkStatus s ! sc ! row \<in> set (blinkStatus s ! sc)"
    using l(7) [OF assms(2)] assms(3) by simp
  moreover have "blinkStatus s ! sc ! row \<noteq> 0"
    using assms(4) by auto
  ultimately show ?thesis
    unfolding scanClasses_iff by blast
qed

lemma doBlink_phase:
  assumes "wf s" and "sc < 2" and "scanClasses False (blinkStatus s)"
  shows "isBlinkDarkPhase (doBlink ms s) ! sc = (isBlinkDarkPhase s ! sc \<noteq> expired ms sc s)"
    and "blinkStartTime (doBlink ms s) ! sc
           = (if expired ms sc s then atRestart ms sc else blinkStartTime s ! sc)"
    and "nextBlinkInterval (doBlink ms s) ! sc
           = (if expired ms sc s
              then (if isBlinkDarkPhase s ! sc then BLINK_INTERVAL_BRIGHT ! sc
                    else BLINK_INTERVAL_DARK ! sc)
              else nextBlinkInterval s ! sc)"
proof -
  have len: "length (hwMatrix s) = LED_ROWS"
    using assms(1) by (simp add: wf_def)
  show "isBlinkDarkPhase (doBlink ms s) ! sc = (isBlinkDarkPhase s ! sc \<noteq> expired ms sc s)"
    using assms(3) by (simp add: doBlink_eq [OF len] Let_def fold_flipPhase_class [OF assms(1,2)])
  show "blinkStartTime (doBlink ms s) ! sc
           = (if expired ms sc s then atRestart ms sc else blinkStartTime s ! sc)"
    using assms(3) by (simp add: doBlink_eq [OF len] Let_def fold_flipPhase_class [OF assms(1,2)])
  show "nextBlinkInterval (doBlink ms s) ! sc
           = (if expired ms sc s
              then (if isBlinkDarkPhase s ! sc then BLINK_INTERVAL_BRIGHT ! sc
                    else BLINK_INTERVAL_DARK ! sc)
              else nextBlinkInterval s ! sc)"
    using assms(3) by (simp add: doBlink_eq [OF len] Let_def fold_flipPhase_class [OF assms(1,2)])
qed

lemma bit_shownWord:
  "bit (shownWord b s row) col \<longleftrightarrow>
     bit (matrix s ! row) col \<and>
     (b \<longrightarrow> \<not> (isBlinkDarkPhase s ! 0 \<and> bit (blinkStatus s ! 0 ! row) col) \<and>
            \<not> (isBlinkDarkPhase s ! 1 \<and> bit (blinkStatus s ! 1 ! row) col))"
  by (auto simp: shownWord_def classes_upt bit_and_iff bit_not_iff dest: bit_imp_possible_bit)

lemma doBlink_hwMatrix:
  assumes "wf s" and "row < 8"
  shows "hwMatrix (doBlink ms s) ! row
           = shownWord (scanClasses False (blinkStatus s)) (doBlink ms s) row"
proof -
  have len: "length (hwMatrix s) = LED_ROWS"
    using assms(1) by (simp add: wf_def)
  show ?thesis
    using assms(2)
    by (simp add: doBlink_eq [OF len] Let_def LED_ROWS_def del: upt_Suc)
qed

lemma lit_iff:
  assumes "wf s" and "row < 8"
  shows "bit (hwMatrix (doBlink ms s) ! row) col \<longleftrightarrow>
           bit (matrix s ! row) col \<and>
           \<not> (isBlinkDarkPhase (doBlink ms s) ! 0 \<and> bit (blinkStatus s ! 0 ! row) col) \<and>
           \<not> (isBlinkDarkPhase (doBlink ms s) ! 1 \<and> bit (blinkStatus s ! 1 ! row) col)"
proof (cases "scanClasses False (blinkStatus s)")
  case True
  then show ?thesis
    by (simp add: doBlink_hwMatrix [OF assms] bit_shownWord doBlink_matrix doBlink_blinkStatus)
next
  case False
  then have "\<not> bit (blinkStatus s ! sc ! row) col" if "sc < 2" for sc
    using member_blinkOn [OF assms(1) that assms(2)] by blast
  then have "\<not> bit (blinkStatus s ! 0 ! row) col" "\<not> bit (blinkStatus s ! 1 ! row) col"
    by simp_all
  with False show ?thesis
    by (simp add: doBlink_hwMatrix [OF assms] bit_shownWord doBlink_matrix)
qed

lemma brightPhaseStarted_eq:
  "brightPhaseStarted =
     \<lparr> hwMatrix = [1, 0, 0, 0, 0, 0, 0, 0],
       matrix = [1, 0, 0, 0, 0, 0, 0, 0],
       blinkStatus = [[1, 0, 0, 0, 0, 0, 0, 0], [0, 0, 0, 0, 0, 0, 0, 0]],
       isBlinkDarkPhase = [False, False],
       blinkStartTime = [5000, 5000],
       nextBlinkInterval = [1000, 2000] \<rparr>"
  by code_simp

text \<open>
  C5: in the frame that \<open>doBlink\<close> computes, an LED that blinks only in the slow class is
  lit exactly if it is on in \<open>matrix\<close> and the slow class is not in its dark phase, and
  that phase comes from the slow class's own flag and timer; the same holds with the
  classes exchanged. An LED that blinks in both classes is dark whenever one of the two
  classes is in its dark phase.
\<close>

theorem cross_class_independence:
  assumes "wf s" and "row < LED_ROWS" and "col < LED_COLS"
  shows "(bit (blinkStatus s ! BLINK_SLOW ! row) col \<and>
            \<not> bit (blinkStatus s ! BLINK_NORMAL ! row) col \<longrightarrow>
            bit (hwMatrix (doBlink ms s) ! row) col
              = (bit (matrix s ! row) col \<and> \<not> isBlinkDarkPhase (doBlink ms s) ! BLINK_SLOW) \<and>
            isBlinkDarkPhase (doBlink ms s) ! BLINK_SLOW
              = (isBlinkDarkPhase s ! BLINK_SLOW \<noteq> expired ms BLINK_SLOW s)) \<and>
         (bit (blinkStatus s ! BLINK_NORMAL ! row) col \<and>
            \<not> bit (blinkStatus s ! BLINK_SLOW ! row) col \<longrightarrow>
            bit (hwMatrix (doBlink ms s) ! row) col
              = (bit (matrix s ! row) col \<and> \<not> isBlinkDarkPhase (doBlink ms s) ! BLINK_NORMAL) \<and>
            isBlinkDarkPhase (doBlink ms s) ! BLINK_NORMAL
              = (isBlinkDarkPhase s ! BLINK_NORMAL \<noteq> expired ms BLINK_NORMAL s)) \<and>
         (bit (blinkStatus s ! BLINK_NORMAL ! row) col \<and>
            bit (blinkStatus s ! BLINK_SLOW ! row) col \<and>
            (isBlinkDarkPhase (doBlink ms s) ! BLINK_NORMAL \<or>
             isBlinkDarkPhase (doBlink ms s) ! BLINK_SLOW) \<longrightarrow>
            \<not> bit (hwMatrix (doBlink ms s) ! row) col)"
proof -
  have row: "row < 8"
    using assms(2) by (simp add: LED_ROWS_def)
  note lit = lit_iff [OF assms(1) row, of ms col]
  have phase: "isBlinkDarkPhase (doBlink ms s) ! sc = (isBlinkDarkPhase s ! sc \<noteq> expired ms sc s)"
    if "sc < 2" and "bit (blinkStatus s ! sc ! row) col" for sc
    using doBlink_phase(1) [OF assms(1) that(1) member_blinkOn [OF assms(1) that(1) row that(2)]] .
  show ?thesis
    using lit phase [of 0] phase [of 1]
    by (auto simp: BLINK_NORMAL_def BLINK_SLOW_def)
qed

lemma threeBlinkingLeds_eq:
  "threeBlinkingLeds =
     \<lparr> hwMatrix = [7, 0, 0, 0, 0, 0, 0, 0],
       matrix = [7, 0, 0, 0, 0, 0, 0, 0],
       blinkStatus = [[5, 0, 0, 0, 0, 0, 0, 0], [6, 0, 0, 0, 0, 0, 0, 0]],
       isBlinkDarkPhase = [False, False],
       blinkStartTime = [5000, 5000],
       nextBlinkInterval = [1000, 2000] \<rparr>"
  by code_simp

theorem cross_class_independence_witness:
  "isBlinkDarkPhase (doBlink (readingsAt 6001) threeBlinkingLeds) = [True, False] \<and>
   \<not> bit (hwMatrix (doBlink (readingsAt 6001) threeBlinkingLeds) ! 0) 0 \<and>
   bit (hwMatrix (doBlink (readingsAt 6001) threeBlinkingLeds) ! 0) 1 \<and>
   \<not> bit (hwMatrix (doBlink (readingsAt 6001) threeBlinkingLeds) ! 0) 2"
proof -
  have h1: "wf threeBlinkingLeds"
    by (simp add: threeBlinkingLeds_eq wf_def LED_ROWS_def NO_OF_SPEED_CLASSES_def)
  have h2: "(0::nat) < LED_ROWS"
    by (simp add: LED_ROWS_def)
  have c0: "(0::nat) < LED_COLS" and c1: "(1::nat) < LED_COLS" and c2: "(2::nat) < LED_COLS"
    by (simp_all add: LED_COLS_def)
  have normal_only: "bit (blinkStatus threeBlinkingLeds ! BLINK_NORMAL ! 0) 0 \<and>
                     \<not> bit (blinkStatus threeBlinkingLeds ! BLINK_SLOW ! 0) 0"
    unfolding threeBlinkingLeds_eq by code_simp
  have slow_only: "bit (blinkStatus threeBlinkingLeds ! BLINK_SLOW ! 0) 1 \<and>
                   \<not> bit (blinkStatus threeBlinkingLeds ! BLINK_NORMAL ! 0) 1"
    unfolding threeBlinkingLeds_eq by code_simp
  have both: "bit (blinkStatus threeBlinkingLeds ! BLINK_NORMAL ! 0) 2 \<and>
              bit (blinkStatus threeBlinkingLeds ! BLINK_SLOW ! 0) 2"
    unfolding threeBlinkingLeds_eq by code_simp
  have on: "bit (matrix threeBlinkingLeds ! 0) 0 \<and> bit (matrix threeBlinkingLeds ! 0) 1"
    unfolding threeBlinkingLeds_eq by code_simp
  have dark: "isBlinkDarkPhase (doBlink (readingsAt 6001) threeBlinkingLeds) = [True, False]"
    unfolding threeBlinkingLeds_eq by code_simp
  show ?thesis
    using cross_class_independence [OF h1 h2 c0, of "readingsAt 6001"]
      cross_class_independence [OF h1 h2 c1, of "readingsAt 6001"]
      cross_class_independence [OF h1 h2 c2, of "readingsAt 6001"]
      normal_only slow_only both on dark
    by (simp add: BLINK_NORMAL_def BLINK_SLOW_def)
qed

text \<open>
  The claim C1 as it is written, with the third sample taken exactly 1000 ms after the
  second: the bright phase of the normal class starts at 5000 ms and the LED is lit; at
  6001 ms it is dark; at 7001 ms, 1000 ms later, it is still dark, because a phase ends
  only when more than its duration has passed.
\<close>

theorem blink_phase_toggling_counterexample:
  "matrix brightPhaseStarted = [1, 0, 0, 0, 0, 0, 0, 0] \<and>
   blinkStatus brightPhaseStarted = [[1, 0, 0, 0, 0, 0, 0, 0], [0, 0, 0, 0, 0, 0, 0, 0]] \<and>
   \<not> isBlinkDarkPhase brightPhaseStarted ! BLINK_NORMAL \<and>
   blinkStartTime brightPhaseStarted ! BLINK_NORMAL = 5000 \<and>
   bit (hwMatrix (doBlink (readingsAt 5000) brightPhaseStarted) ! 0) 0 \<and>
   \<not> bit (hwMatrix (doBlink (readingsAt 6001) (doBlink (readingsAt 5000) brightPhaseStarted)) ! 0) 0 \<and>
   (7001::u32) - 6001 = 1000 \<and>
   \<not> bit (hwMatrix (doBlink (readingsAt 7001)
            (doBlink (readingsAt 6001) (doBlink (readingsAt 5000) brightPhaseStarted))) ! 0) 0"
  by code_simp

text \<open>
  C1, amended: an LED is on in \<open>matrix\<close> and blinks in the normal class only (1000 ms
  bright, 1000 ms dark), and a bright phase of that class has started. Then the LED is lit
  in the frame of a refresh at most 1000 ms after the start of the phase, dark in the
  frame of the next refresh if that one comes more than 1000 ms after the start, and lit
  again in the frame of the refresh after that exactly if more than 1000 ms have passed
  since the second one.
\<close>

theorem blink_phase_toggling:
  assumes "wf s" and "row < LED_ROWS" and "col < LED_COLS"
    and "bit (matrix s ! row) col"
    and "bit (blinkStatus s ! BLINK_NORMAL ! row) col"
    and "\<not> bit (blinkStatus s ! BLINK_SLOW ! row) col"
    and "\<not> isBlinkDarkPhase s ! BLINK_NORMAL"
    and "nextBlinkInterval s ! BLINK_NORMAL = 1000"
    and "atCheck ms1 BLINK_NORMAL - blinkStartTime s ! BLINK_NORMAL \<le> 1000"
    and "1000 < atCheck ms2 BLINK_NORMAL - blinkStartTime s ! BLINK_NORMAL"
  shows "bit (hwMatrix (doBlink ms1 s) ! row) col \<and>
         \<not> bit (hwMatrix (doBlink ms2 (doBlink ms1 s)) ! row) col \<and>
         (bit (hwMatrix (doBlink ms3 (doBlink ms2 (doBlink ms1 s))) ! row) col
            \<longleftrightarrow> 1000 < atCheck ms3 BLINK_NORMAL - atRestart ms2 BLINK_NORMAL)"
proof -
  let ?s1 = "doBlink ms1 s"
  let ?s2 = "doBlink ms2 ?s1"
  let ?s3 = "doBlink ms3 ?s2"
  have row: "row < 8"
    using assms(2) by (simp add: LED_ROWS_def)
  have wf1: "wf ?s1" and wf2: "wf ?s2"
    using assms(1) by (simp_all add: doBlink_wf)
  have on: "scanClasses False (blinkStatus s)"
    using member_blinkOn [OF assms(1) _ row, of 0 col] assms(5) by (simp add: BLINK_NORMAL_def)
  then have on1: "scanClasses False (blinkStatus ?s1)" and on2: "scanClasses False (blinkStatus ?s2)"
    by (simp_all add: doBlink_blinkStatus)
  have e1: "\<not> expired ms1 0 s"
    using assms(8,9) by (simp add: expired_def BLINK_NORMAL_def)
  have p1: "\<not> isBlinkDarkPhase ?s1 ! 0" "blinkStartTime ?s1 ! 0 = blinkStartTime s ! 0"
    "nextBlinkInterval ?s1 ! 0 = 1000"
    using doBlink_phase [OF assms(1) _ on, of 0 ms1] e1 assms(7,8)
    by (simp_all add: BLINK_NORMAL_def)
  have e2: "expired ms2 0 ?s1"
    using assms(10) p1 by (simp add: expired_def BLINK_NORMAL_def)
  have p2: "isBlinkDarkPhase ?s2 ! 0" "blinkStartTime ?s2 ! 0 = atRestart ms2 0"
    "nextBlinkInterval ?s2 ! 0 = 1000"
    using doBlink_phase [OF wf1 _ on1, of 0 ms2] e2 p1
    by (simp_all add: BLINK_INTERVAL_DARK_def)
  have e3: "expired ms3 0 ?s2 \<longleftrightarrow> 1000 < atCheck ms3 BLINK_NORMAL - atRestart ms2 BLINK_NORMAL"
    using p2 by (simp add: expired_def BLINK_NORMAL_def)
  have p3: "isBlinkDarkPhase ?s3 ! 0
              \<longleftrightarrow> \<not> 1000 < atCheck ms3 BLINK_NORMAL - atRestart ms2 BLINK_NORMAL"
    using doBlink_phase(1) [OF wf2 _ on2, of 0 ms3] e3 p2 by simp
  have m: "bit (matrix s ! row) col" "bit (blinkStatus s ! 0 ! row) col"
    "\<not> bit (blinkStatus s ! 1 ! row) col"
    using assms(4,5,6) by (simp_all add: BLINK_NORMAL_def BLINK_SLOW_def)
  have "bit (hwMatrix ?s1 ! row) col"
    using lit_iff [OF assms(1) row, of ms1 col] m p1 by simp
  moreover have "\<not> bit (hwMatrix ?s2 ! row) col"
    using lit_iff [OF wf1 row, of ms2 col] m p2
    by (simp add: doBlink_matrix doBlink_blinkStatus)
  moreover have "bit (hwMatrix ?s3 ! row) col
                   \<longleftrightarrow> 1000 < atCheck ms3 BLINK_NORMAL - atRestart ms2 BLINK_NORMAL"
    using lit_iff [OF wf2 row, of ms3 col] m p3
    by (simp add: doBlink_matrix doBlink_blinkStatus)
  ultimately show ?thesis by blast
qed

theorem blink_phase_toggling_witness:
  "bit (hwMatrix (doBlink (readingsAt 5000) brightPhaseStarted) ! 0) 0 \<and>
   \<not> bit (hwMatrix (doBlink (readingsAt 6001) (doBlink (readingsAt 5000) brightPhaseStarted)) ! 0) 0 \<and>
   bit (hwMatrix (doBlink (readingsAt 7002)
            (doBlink (readingsAt 6001) (doBlink (readingsAt 5000) brightPhaseStarted))) ! 0) 0"
proof -
  have h1: "wf brightPhaseStarted"
    by (simp add: brightPhaseStarted_eq wf_def LED_ROWS_def NO_OF_SPEED_CLASSES_def)
  have h2: "(0::nat) < LED_ROWS" and h3: "(0::nat) < LED_COLS"
    by (simp_all add: LED_ROWS_def LED_COLS_def)
  have h4: "bit (matrix brightPhaseStarted ! 0) 0"
    and h5: "bit (blinkStatus brightPhaseStarted ! BLINK_NORMAL ! 0) 0"
    and h6: "\<not> bit (blinkStatus brightPhaseStarted ! BLINK_SLOW ! 0) 0"
    and h7: "\<not> isBlinkDarkPhase brightPhaseStarted ! BLINK_NORMAL"
    and h8: "nextBlinkInterval brightPhaseStarted ! BLINK_NORMAL = 1000"
    by (simp_all add: brightPhaseStarted_eq BLINK_NORMAL_def BLINK_SLOW_def)
  have h9: "atCheck (readingsAt 5000) BLINK_NORMAL - blinkStartTime brightPhaseStarted ! BLINK_NORMAL
              \<le> 1000"
    and h10: "1000 < atCheck (readingsAt 6001) BLINK_NORMAL
                - blinkStartTime brightPhaseStarted ! BLINK_NORMAL"
    and h11: "1000 < atCheck (readingsAt 7002) BLINK_NORMAL - atRestart (readingsAt 6001) BLINK_NORMAL"
    by (simp_all add: brightPhaseStarted_eq BLINK_NORMAL_def readingsAt_def)
  show ?thesis
    using blink_phase_toggling [OF h1 h2 h3 h4 h5 h6 h7 h8 h9 h10, of "readingsAt 7002"] h11
    by blast
qed


text \<open>
  The constructor leaves both classes in their dark phase: an LED that is enrolled right
  after construction is dark in the first frame.
\<close>

lemma first_frame_after_construction:
  "isBlinkDarkPhase (powerOn 0) = [True, True] \<and>
   \<not> bit (hwMatrix (doBlink (readingsAt 0) oneBlinkingLed) ! 0) 0"
  by code_simp

end
